theory Spec2Isabelle
  imports Main "HOL-Library.Sublist" "HOL-Library.Char_ord" "HOL-Library.List_Lexorder"
begin

section \<open>Strings of the program\<close>

text \<open>
  The source is \<^verbatim>\<open>manage_product_tags.py\<close>. Python strings are modelled as \<^typ>\<open>string\<close>,
  the UTF-8 bytes of the text. Splitting and joining on ASCII separators and comparing
  lexicographically are the same on the bytes as on the code points. \<^verbatim>\<open>str.strip\<close> and
  \<^verbatim>\<open>str.lower\<close> are modelled on the ASCII range only: the Unicode spaces beyond it, which
  Python strips as well, are ordinary bytes here.
\<close>

definition TAG_SEPARATOR :: string where
  "TAG_SEPARATOR = '';''"

definition SHOPIFY_TAG_SEPARATOR :: string where
  "SHOPIFY_TAG_SEPARATOR = '', ''"

text \<open>
  \<^verbatim>\<open>s.split(sep)\<close>: the occurrences of \<open>sep\<close> are found from the left and do not overlap;
  the pieces between them are returned, so the result is never empty. Python raises
  ValueError for an empty separator; the program only splits on the two constants above,
  and the guard \<open>sep \<noteq> []\<close> keeps the function total there.
\<close>

function py_split :: "string \<Rightarrow> string \<Rightarrow> string list" where
  "py_split sep s =
     (if s = [] then [[]]
      else if sep \<noteq> [] \<and> prefix sep s then [] # py_split sep (drop (length sep) s)
      else (case py_split sep (tl s) of
              [] \<Rightarrow> [[hd s]]
            | p # ps \<Rightarrow> (hd s # p) # ps))"
  by pat_completeness auto
termination
  by (relation "measure (\<lambda>(sep, s). length s)") auto

declare py_split.simps [simp del]

text \<open>\<^verbatim>\<open>sep.join(xs)\<close>.\<close>

fun py_join :: "string \<Rightarrow> string list \<Rightarrow> string" where
  "py_join sep [] = []"
| "py_join sep [x] = x"
| "py_join sep (x # y # ys) = x @ sep @ py_join sep (y # ys)"

text \<open>The ASCII characters for which \<^verbatim>\<open>str.isspace\<close> holds: 9 to 13, 28 to 32.\<close>

definition is_space :: "char \<Rightarrow> bool" where
  "is_space c = (let n = (of_char c :: nat) in (9 \<le> n \<and> n \<le> 13) \<or> (28 \<le> n \<and> n \<le> 32))"

definition strip :: "string \<Rightarrow> string" where
  "strip s = rev (dropWhile is_space (rev (dropWhile is_space s)))"

definition lower_char :: "char \<Rightarrow> char" where
  "lower_char c =
     (let n = (of_char c :: nat) in if 65 \<le> n \<and> n \<le> 90 then char_of (n + 32) else c)"

definition lower :: "string \<Rightarrow> string" where
  "lower s = map lower_char s"

section \<open>Tag reconciliation\<close>

text \<open>
  Line 252 and lines 293, 393:
  \<^verbatim>\<open>set(product.tags.split(SHOPIFY_TAG_SEPARATOR) if product.tags else [])\<close>.
  The tags of a product are a string or absent; both the absent and the empty string are
  falsy.
\<close>

definition current_tag_list :: "string option \<Rightarrow> string list" where
  "current_tag_list product_tags =
     (case product_tags of
        None \<Rightarrow> []
      | Some s \<Rightarrow> if s = [] then [] else py_split SHOPIFY_TAG_SEPARATOR s)"

definition current_tags :: "string option \<Rightarrow> string set" where
  "current_tags product_tags = set (current_tag_list product_tags)"

text \<open>Line 253: \<^verbatim>\<open>[tag for tag in type_tags if tag not in current_tags]\<close>, as the loop it is.\<close>

fun tags_to_add :: "string list \<Rightarrow> string option \<Rightarrow> string list" where
  "tags_to_add [] product_tags = []"
| "tags_to_add (tag # type_tags) product_tags =
     (if tag \<notin> current_tags product_tags then tag # tags_to_add type_tags product_tags
      else tags_to_add type_tags product_tags)"

text \<open>
  Lines 293 to 296 and 393 to 396: the current set, updated with the tags to add, sorted
  and joined with the separator of the catalog. The value is what is assigned to
  \<^verbatim>\<open>product.tags\<close>.
\<close>

definition merged_tag_list :: "string option \<Rightarrow> string list \<Rightarrow> string list" where
  "merged_tag_list product_tags to_add =
     sorted_list_of_set (current_tags product_tags \<union> set to_add)"

definition merge_tags :: "string option \<Rightarrow> string list \<Rightarrow> string" where
  "merge_tags product_tags to_add =
     py_join SHOPIFY_TAG_SEPARATOR (merged_tag_list product_tags to_add)"

text \<open>
  One product through one run whose write succeeds: the scanner leaves the product alone
  when nothing is missing (line 254), otherwise the executor writes the merged string.
\<close>

definition reconcile :: "string list \<Rightarrow> string option \<Rightarrow> string option" where
  "reconcile type_tags product_tags =
     (let to_add = tags_to_add type_tags product_tags
      in if to_add = [] then product_tags else Some (merge_tags product_tags to_add))"

text \<open>A tag that contains the separator of the catalog.\<close>

definition has_separator :: "string \<Rightarrow> bool" where
  "has_separator tag = sublist SHOPIFY_TAG_SEPARATOR tag"

section \<open>Products, messages and events\<close>

text \<open>An exception, with the text that \<^verbatim>\<open>str(e)\<close> gives.\<close>

datatype exn = Exception string

text \<open>The handle of a product of the catalog; \<open>tags\<close> is absent or a string.\<close>

record product =
  title :: string
  product_type :: string
  tags :: "string option"

type_synonym worklist = "(product \<times> string list) list"

text \<open>
  What the program prints, without the time stamps and the wording. The arguments are the
  values the source formats into the message.
\<close>

datatype message =
    MsgLoaded nat
  | MsgLoadError exn
  | MsgSearching
  | MsgProgress nat
  | MsgTotal nat
  | MsgStart
  | MsgNoMappings
  | MsgNoProducts
  | MsgCancelled
  | MsgAdded string string
  | MsgUpdateError string exn
  | MsgDone
  | MsgUpdated nat nat
  | MsgGeneralError exn
  | MsgAutoStart
  | MsgFound nat
  | MsgAutoDone
  | MsgAutoError exn
  | MsgInvalidAnswer
  | MsgExists string
  | MsgOperationCancelled
  | MsgMappingUpdated string
  | MsgMappingAdded string
  | MsgAddError exn
  | MsgRequired

text \<open>
  The effects of a run, in the order they happen: the session calls, the query on the
  mapping table, a page fetched from the catalog, the table of the worklist displayed, and
  \<^verbatim>\<open>product.save()\<close> with the product as written and what the call raised, if anything.
\<close>

datatype event =
    SetupSession
  | ClearSession
  | Query
  | Fetch
  | Display worklist
  | Save product "exn option"
  | Print message

section \<open>Mapping store\<close>

text \<open>
  The rows \<open>(product_type, tags)\<close> of the table \<^verbatim>\<open>product_type_tags\<close>. A Python dict is an
  association list in insertion order; assigning to a key that is present keeps its place.
\<close>

type_synonym rows = "(string \<times> string) list"

type_synonym mappings = "(string \<times> string list) list"

fun dict_set :: "'k \<Rightarrow> 'v \<Rightarrow> ('k \<times> 'v) list \<Rightarrow> ('k \<times> 'v) list" where
  "dict_set k v [] = [(k, v)]"
| "dict_set k v ((k', v') # d) = (if k' = k then (k, v) # d else (k', v') # dict_set k v d)"

text \<open>Line 109: \<^verbatim>\<open>[tag.strip() for tag in tags_str.split(TAG_SEPARATOR)]\<close>.\<close>

definition parse_tags :: "string \<Rightarrow> string list" where
  "parse_tags tags_str = map strip (py_split TAG_SEPARATOR tags_str)"

fun load_rows :: "rows \<Rightarrow> mappings \<Rightarrow> mappings" where
  "load_rows [] mappings = mappings"
| "load_rows ((ptype, tags_str) # rest) mappings =
     load_rows rest (dict_set ptype (parse_tags tags_str) mappings)"

text \<open>
  \<^verbatim>\<open>load_product_type_mappings\<close>: \<open>db_error\<close> is the exception that connecting to the
  database or the query raises, if any; it is caught, printed, and the empty dict returned.
\<close>

definition load_product_type_mappings ::
  "exn option \<Rightarrow> rows \<Rightarrow> event list \<times> mappings" where
  "load_product_type_mappings db_error store =
     (case db_error of
        Some e \<Rightarrow> ([Query, Print (MsgLoadError e)], [])
      | None \<Rightarrow>
          (let mappings = load_rows store []
           in ([Query, Print (MsgLoaded (length mappings))], mappings)))"

text \<open>
  \<^verbatim>\<open>get_user_confirmation\<close>: \<open>stdin n\<close> is what the \<open>n\<close>-th call of \<^verbatim>\<open>input\<close> returns or
  raises (EOFError at the end of the input). The loop asks until the answer is \<open>s\<close> or
  \<open>n\<close>, so it need not return: not returning is the value \<open>None\<close>. The result carries the
  position of the next line to read.
\<close>

partial_function (option) get_user_confirmation ::
  "(nat \<Rightarrow> exn + string) \<Rightarrow> nat \<Rightarrow> event list \<Rightarrow> (event list \<times> (exn + bool)) option" where
  "get_user_confirmation stdin n out =
     (case stdin n of
        Inl e \<Rightarrow> Some (out, Inl e)
      | Inr line \<Rightarrow>
          (if lower (strip line) = ''s'' \<or> lower (strip line) = ''n''
           then Some (out, Inr (lower (strip line) = ''s''))
           else get_user_confirmation stdin (Suc n) (out @ [Print MsgInvalidAnswer])))"

text \<open>
  \<^verbatim>\<open>add_mapping\<close>. An exception of the database, or of \<^verbatim>\<open>input\<close> while confirming, is
  caught and printed; nothing is committed then.
\<close>

definition add_mapping ::
  "exn option \<Rightarrow> (nat \<Rightarrow> exn + string) \<Rightarrow> nat \<Rightarrow> rows \<Rightarrow> string \<Rightarrow> string \<Rightarrow>
   (event list \<times> rows) option" where
  "add_mapping db_error stdin n store ptype tags_str =
     (case db_error of
        Some e \<Rightarrow> Some ([Print (MsgAddError e)], store)
      | None \<Rightarrow>
          if ptype \<in> fst ` set store then
            (case get_user_confirmation stdin n [Print (MsgExists ptype)] of
               None \<Rightarrow> None
             | Some (out, Inl e) \<Rightarrow> Some (out @ [Print (MsgAddError e)], store)
             | Some (out, Inr update) \<Rightarrow>
                 if \<not> update then Some (out @ [Print MsgOperationCancelled], store)
                 else Some (out @ [Print (MsgMappingUpdated ptype)],
                            map (\<lambda>(k, v). if k = ptype then (k, tags_str) else (k, v)) store))
          else Some ([Print (MsgMappingAdded ptype)], store @ [(ptype, tags_str)]))"

text \<open>
  Choice 2 of \<^verbatim>\<open>admin_menu\<close>, lines 324 to 329: two lines are read and stripped, and
  \<^verbatim>\<open>add_mapping\<close> is called only when both are non-empty. An exception of \<^verbatim>\<open>input\<close> is not
  caught in the menu: it is the \<open>Inl\<close> result.
\<close>

definition admin_menu_choice_2 ::
  "exn option \<Rightarrow> (nat \<Rightarrow> exn + string) \<Rightarrow> nat \<Rightarrow> rows \<Rightarrow> (exn + event list \<times> rows) option" where
  "admin_menu_choice_2 db_error stdin n store =
     (case stdin n of
        Inl e \<Rightarrow> Some (Inl e)
      | Inr line1 \<Rightarrow>
          (case stdin (Suc n) of
             Inl e \<Rightarrow> Some (Inl e)
           | Inr line2 \<Rightarrow>
               if strip line1 \<noteq> [] \<and> strip line2 \<noteq> []
               then map_option Inr
                      (add_mapping db_error stdin (Suc (Suc n)) store (strip line1) (strip line2))
               else Some (Inr ([Print MsgRequired], store))))"

section \<open>Catalog scanner\<close>

text \<open>
  The catalog as the scanner sees it: what fetching a page gives. \<open>FetchError\<close> is a call of
  \<^verbatim>\<open>Product.find\<close> or \<^verbatim>\<open>next_page\<close> that raises, \<open>Page ps nxt\<close> a page with a
  \<^verbatim>\<open>next_page_url\<close> whose \<^verbatim>\<open>next_page()\<close> gives \<open>nxt\<close>, \<open>LastPage ps\<close> a page without one.
  A page is a list, so an empty page is falsy and ends the \<^verbatim>\<open>while\<close> loop.
\<close>

datatype fetch = FetchError exn | Page "product list" fetch | LastPage "product list"

text \<open>
  Lines 246 to 255, the body of the \<^verbatim>\<open>for\<close> loop: the type of the product is looked up in
  the mapping, and the product is appended when some tag is missing.
\<close>

definition scan_product :: "mappings \<Rightarrow> product \<Rightarrow> worklist \<Rightarrow> worklist" where
  "scan_product product_type_mappings p products_with_type_tags =
     (case map_of product_type_mappings (product_type p) of
        None \<Rightarrow> products_with_type_tags
      | Some type_tags \<Rightarrow>
          (let to_add = tags_to_add type_tags (tags p)
           in if to_add \<noteq> [] then products_with_type_tags @ [(p, to_add)]
              else products_with_type_tags))"

text \<open>Lines 244 and 245: the \<^verbatim>\<open>for\<close> loop over a page, counting every product.\<close>

fun scan_page :: "mappings \<Rightarrow> product list \<Rightarrow> worklist \<Rightarrow> nat \<Rightarrow> worklist \<times> nat" where
  "scan_page m [] wl processed_count = (wl, processed_count)"
| "scan_page m (p # ps) wl processed_count =
     scan_page m ps (scan_product m p wl) (Suc processed_count)"

definition progress :: "nat \<Rightarrow> event list" where
  "progress processed_count =
     (if processed_count mod 250 = 0 then [Print (MsgProgress processed_count)] else [])"

text \<open>Lines 241 to 264: the fetch of a page, the \<^verbatim>\<open>while\<close> loop and the total.\<close>

fun scan_loop :: "mappings \<Rightarrow> fetch \<Rightarrow> worklist \<Rightarrow> nat \<Rightarrow> event list \<times> (exn + worklist)" where
  "scan_loop m (FetchError e) wl n = ([Fetch], Inl e)"
| "scan_loop m (LastPage ps) wl n =
     (if ps = [] then ([Fetch, Print (MsgTotal n)], Inr wl)
      else (let (wl', n') = scan_page m ps wl n
            in (Fetch # progress n' @ [Print (MsgTotal n')], Inr wl')))"
| "scan_loop m (Page ps nxt) wl n =
     (if ps = [] then ([Fetch, Print (MsgTotal n)], Inr wl)
      else (let (wl', n') = scan_page m ps wl n;
                (evs, r) = scan_loop m nxt wl' n'
            in (Fetch # progress n' @ evs, r)))"

definition get_products_for_type_tagging ::
  "mappings \<Rightarrow> fetch \<Rightarrow> event list \<times> (exn + worklist)" where
  "get_products_for_type_tagging product_type_mappings catalog =
     (if product_type_mappings = [] then ([], Inr [])
      else (let (evs, r) = scan_loop product_type_mappings catalog [] 0
            in (Print MsgSearching # evs, r)))"

text \<open>The products the loop iterates over: the pages up to the first empty or failing one.\<close>

fun visited :: "fetch \<Rightarrow> product list" where
  "visited (FetchError e) = []"
| "visited (LastPage ps) = ps"
| "visited (Page ps nxt) = (if ps = [] then [] else ps @ visited nxt)"

section \<open>Update executor\<close>

text \<open>
  Lines 289 to 301 and 389 to 400, the same loop in both workflows; \<open>announce\<close> is true in
  \<^verbatim>\<open>manage_product_type_tags\<close>, which prints the added tags after a successful write.
  \<open>save i p\<close> is what \<^verbatim>\<open>product.save()\<close> raises at the \<open>i\<close>-th item of the worklist for the
  product \<open>p\<close> as written, \<open>None\<close> when the write succeeds. The exception is caught and
  printed inside the loop.
\<close>

fun update_loop ::
  "bool \<Rightarrow> (nat \<Rightarrow> product \<Rightarrow> exn option) \<Rightarrow> nat \<Rightarrow> worklist \<Rightarrow> nat \<Rightarrow> event list \<times> nat" where
  "update_loop announce save i [] update_count = ([], update_count)"
| "update_loop announce save i ((p, to_add) # rest) update_count =
     (let p' = p\<lparr>tags := Some (merge_tags (tags p) to_add)\<rparr>
      in case save i p' of
           None \<Rightarrow>
             (let (evs, c) = update_loop announce save (Suc i) rest (Suc update_count)
              in (Save p' None #
                  (if announce
                   then [Print (MsgAdded (title p) (py_join TAG_SEPARATOR to_add))]
                   else []) @ evs, c))
         | Some e \<Rightarrow>
             (let (evs, c) = update_loop announce save (Suc i) rest update_count
              in (Save p' (Some e) # Print (MsgUpdateError (title p) e) # evs, c)))"

text \<open>The loop from a count of zero, followed by the report of lines 302, 303 and 401, 402.\<close>

definition apply_worklist ::
  "bool \<Rightarrow> (nat \<Rightarrow> product \<Rightarrow> exn option) \<Rightarrow> worklist \<Rightarrow> event list" where
  "apply_worklist announce save products_with_type_tags =
     (let (evs, update_count) = update_loop announce save 0 products_with_type_tags 0
      in evs @ [Print (if announce then MsgDone else MsgAutoDone),
                Print (MsgUpdated update_count (length products_with_type_tags))])"

text \<open>The calls of \<^verbatim>\<open>save\<close> in a trace, with their outcomes, and the writes that succeeded.\<close>

fun save_events :: "event list \<Rightarrow> (product \<times> exn option) list" where
  "save_events [] = []"
| "save_events (Save p r # evs) = (p, r) # save_events evs"
| "save_events (ev # evs) = save_events evs"

definition applied :: "event list \<Rightarrow> product list" where
  "applied evs = map fst (filter (\<lambda>(p, r). r = None) (save_events evs))"

section \<open>Workflows\<close>

text \<open>
  What a run meets outside the program: the exception \<^verbatim>\<open>setup_session\<close> raises, if any, the
  exception of the database, if any, the rows of the table, the catalog, the exception
  \<^verbatim>\<open>display_products\<close> raises, if any, the lines typed, and the outcome of every write.
\<close>

record env =
  setup_error :: "exn option"
  db_error :: "exn option"
  store :: rows
  catalog :: fetch
  display_error :: "exn option"
  stdin :: "nat \<Rightarrow> exn + string"
  save :: "nat \<Rightarrow> product \<Rightarrow> exn option"

text \<open>
  The \<^verbatim>\<open>try\<close> block of \<^verbatim>\<open>manage_product_type_tags\<close>, lines 270 to 303: the events, and the
  exception that leaves the block (\<open>Inl\<close>) or a return (\<open>Inr\<close>). \<open>None\<close>: the confirmation
  never returns.
\<close>

definition manage_body :: "env \<Rightarrow> (event list \<times> (exn + unit)) option" where
  "manage_body E =
     (case setup_error E of
        Some e \<Rightarrow> Some ([Print MsgStart, SetupSession], Inl e)
      | None \<Rightarrow>
          (let (levs, product_type_mappings) = load_product_type_mappings (db_error E) (store E);
               t1 = [Print MsgStart, SetupSession] @ levs
           in if product_type_mappings = [] then Some (t1 @ [Print MsgNoMappings], Inr ())
              else
                (case get_products_for_type_tagging product_type_mappings (catalog E) of
                   (sevs, Inl e) \<Rightarrow> Some (t1 @ sevs, Inl e)
                 | (sevs, Inr products_with_type_tags) \<Rightarrow>
                     if products_with_type_tags = []
                     then Some (t1 @ sevs @ [Print MsgNoProducts], Inr ())
                     else
                       (case display_error E of
                          Some e \<Rightarrow> Some (t1 @ sevs @ [Display products_with_type_tags], Inl e)
                        | None \<Rightarrow>
                            (case get_user_confirmation (stdin E) 0
                                    (t1 @ sevs @ [Display products_with_type_tags]) of
                               None \<Rightarrow> None
                             | Some (t2, Inl e) \<Rightarrow> Some (t2, Inl e)
                             | Some (t2, Inr confirmed) \<Rightarrow>
                                 if \<not> confirmed then Some (t2 @ [Print MsgCancelled], Inr ())
                                 else Some (t2 @ apply_worklist True (save E)
                                                   products_with_type_tags, Inr ()))))))"

text \<open>
  \<^verbatim>\<open>manage_product_type_tags\<close>: the \<^verbatim>\<open>except\<close> clause prints the exception, and the
  \<^verbatim>\<open>finally\<close> clause clears the session on the way out.
\<close>

definition manage_product_type_tags :: "env \<Rightarrow> event list option" where
  "manage_product_type_tags E =
     (case manage_body E of
        None \<Rightarrow> None
      | Some (evs, Inl e) \<Rightarrow> Some (evs @ [Print (MsgGeneralError e)] @ [ClearSession])
      | Some (evs, Inr u) \<Rightarrow> Some (evs @ [ClearSession]))"

text \<open>The \<^verbatim>\<open>try\<close> block of \<^verbatim>\<open>auto_manage_tags_without_confirmation\<close>, lines 375 to 402.\<close>

definition auto_body :: "env \<Rightarrow> event list \<times> (exn + unit)" where
  "auto_body E =
     (case setup_error E of
        Some e \<Rightarrow> ([Print MsgAutoStart, SetupSession], Inl e)
      | None \<Rightarrow>
          (let (levs, product_type_mappings) = load_product_type_mappings (db_error E) (store E);
               t1 = [Print MsgAutoStart, SetupSession] @ levs
           in if product_type_mappings = [] then (t1 @ [Print MsgNoMappings], Inr ())
              else
                (case get_products_for_type_tagging product_type_mappings (catalog E) of
                   (sevs, Inl e) \<Rightarrow> (t1 @ sevs, Inl e)
                 | (sevs, Inr products_with_type_tags) \<Rightarrow>
                     if products_with_type_tags = []
                     then (t1 @ sevs @ [Print MsgNoProducts], Inr ())
                     else (t1 @ sevs @ [Print (MsgFound (length products_with_type_tags))] @
                           apply_worklist False (save E) products_with_type_tags, Inr ()))))"

definition auto_manage_tags_without_confirmation :: "env \<Rightarrow> event list" where
  "auto_manage_tags_without_confirmation E =
     (case auto_body E of
        (evs, Inl e) \<Rightarrow> evs @ [Print (MsgAutoError e)] @ [ClearSession]
      | (evs, Inr u) \<Rightarrow> evs @ [ClearSession])"

text \<open>
  A trace closes the session: a session call opens it, the session is cleared once, and
  nothing happens after that.
\<close>

definition session_closed :: "event list \<Rightarrow> bool" where
  "session_closed evs =
     (SetupSession \<in> set evs \<and> evs \<noteq> [] \<and> last evs = ClearSession \<and>
      count_list evs ClearSession = 1)"

text \<open>A line that ends the confirmation loop: an exception or an answer.\<close>

definition answers :: "exn + string \<Rightarrow> bool" where
  "answers r =
     (case r of Inl e \<Rightarrow> True | Inr line \<Rightarrow> lower (strip line) = ''s'' \<or> lower (strip line) = ''n'')"

section \<open>Splitting and joining\<close>

lemma py_split_not_Nil: "py_split sep s \<noteq> []"
  by (induction sep s rule: py_split.induct) (subst py_split.simps, auto split: list.splits)

lemma py_join_Cons: "xs \<noteq> [] \<Longrightarrow> py_join sep (x # xs) = x @ sep @ py_join sep xs"
  by (cases xs) simp_all

lemma py_join_py_split: "py_join sep (py_split sep s) = s"
proof (induction sep s rule: py_split.induct)
  case (1 sep s)
  show ?case
  proof (cases "s = []")
    case True
    then show ?thesis by (simp add: py_split.simps)
  next
    case ne: False
    show ?thesis
    proof (cases "sep \<noteq> [] \<and> prefix sep s")
      case True
      then have "py_split sep s = [] # py_split sep (drop (length sep) s)"
        using ne by (subst py_split.simps) simp
      moreover have "py_join sep (py_split sep (drop (length sep) s)) = drop (length sep) s"
        using 1(1) ne True by simp
      moreover have "sep @ drop (length sep) s = s"
        using True by (auto simp: prefix_def)
      ultimately show ?thesis
        by (simp add: py_join_Cons py_split_not_Nil)
    next
      case False
      obtain p ps where ps: "py_split sep (tl s) = p # ps"
        using py_split_not_Nil [of sep "tl s"] by (cases "py_split sep (tl s)") auto
      have "py_split sep s = (hd s # p) # ps"
        using ne False ps by (subst py_split.simps) auto
      moreover have "py_join sep (p # ps) = tl s"
        using 1(2) ne False ps by simp
      ultimately show ?thesis
        using ne by (cases ps) (auto simp: )
    qed
  qed
qed

lemma py_split_no_sep:
  "sep \<noteq> [] \<Longrightarrow> p \<in> set (py_split sep s) \<Longrightarrow> \<not> sublist sep p"
proof (induction sep s arbitrary: p rule: py_split.induct)
  case (1 sep s)
  show ?case
  proof (cases "s = []")
    case True
    then show ?thesis using 1(3,4) by (simp add: py_split.simps)
  next
    case ne: False
    show ?thesis
    proof (cases "prefix sep s")
      case True
      then have "py_split sep s = [] # py_split sep (drop (length sep) s)"
        using ne 1(3) by (subst py_split.simps) simp
      then show ?thesis
        using 1(1)[OF ne _ 1(3)] True 1(3,4) by auto
    next
      case False
      obtain q qs where qs: "py_split sep (tl s) = q # qs"
        using py_split_not_Nil [of sep "tl s"] by (cases "py_split sep (tl s)") auto
      have eq: "py_split sep s = (hd s # q) # qs"
        using ne False qs by (subst py_split.simps) auto
      have ih: "\<And>r. r \<in> set (q # qs) \<Longrightarrow> \<not> sublist sep r"
        using 1(2)[OF ne _ 1(3)] False qs by auto
      have pre: "prefix (hd s # q) s"
        using py_join_py_split [of sep "tl s"] qs ne
        by (cases qs; cases s) (auto)
      show ?thesis
      proof (cases "p = hd s # q")
        case True
        have "\<not> prefix sep (hd s # q)"
          using pre False by (meson prefix_order.trans)
        moreover have "\<not> sublist sep q" using ih by simp
        ultimately show ?thesis using True 1(3) by (simp add: sublist_Cons_right)
      next
        case False
        then show ?thesis using ih eq 1(4) by auto
      qed
    qed
  qed
qed

lemma py_split_no_occurrence: "\<not> sublist sep x \<Longrightarrow> py_split sep x = [x]"
proof (induction x)
  case Nil
  then show ?case by (simp add: py_split.simps)
next
  case (Cons c x)
  then have "\<not> sublist sep x" and "\<not> prefix sep (c # x)"
    by (auto simp: sublist_Cons_right)
  then show ?case using Cons.IH
    by (subst py_split.simps) simp
qed

lemma py_split_piece_then_sep:
  assumes "a \<noteq> b" and "\<not> sublist [a, b] x"
  shows "py_split [a, b] (x @ [a, b] @ rest) = x # py_split [a, b] rest"
  using assms(2)
proof (induction x)
  case Nil
  then show ?case by (subst py_split.simps) simp
next
  case (Cons c x)
  then have nsub: "\<not> sublist [a, b] x" and npre: "\<not> prefix [a, b] (c # x)"
    by (auto simp: sublist_Cons_right)
  have "\<not> prefix [a, b] (c # x @ [a, b] @ rest)"
    using npre assms(1) by (cases x) auto
  then show ?case using Cons.IH [OF nsub]
    by (subst py_split.simps) simp
qed

lemma py_split_py_join:
  assumes "a \<noteq> b"
  shows "xs \<noteq> [] \<Longrightarrow> \<forall>x \<in> set xs. \<not> sublist [a, b] x \<Longrightarrow>
         py_split [a, b] (py_join [a, b] xs) = xs"
proof (induction xs)
  case Nil
  then show ?case by simp
next
  case (Cons x xs)
  show ?case
  proof (cases xs)
    case Nil
    then show ?thesis using Cons.prems by (simp add: py_split_no_occurrence)
  next
    case (Cons y ys)
    then have "py_split [a, b] (py_join [a, b] xs) = xs"
      using Cons.IH Cons.prems by simp
    then show ?thesis
      using py_split_piece_then_sep [OF assms, of x "py_join [a, b] xs"] Cons.prems Cons
      by simp
  qed
qed

lemma py_join_eq_Nil: "py_join sep xs = [] \<longleftrightarrow> xs = [] \<or> xs = [[]] \<or> (sep = [] \<and> set xs = {[]})"
  by (induction sep xs rule: py_join.induct) auto

lemma py_split_char_append:
  "py_split [c] (a @ c # b) = py_split [c] a @ py_split [c] b"
proof (induction a)
  case Nil
  show ?case by (subst py_split.simps) (simp add: py_split.simps [of _ "[]"])
next
  case (Cons d a)
  obtain p ps where ps: "py_split [c] a = p # ps"
    using py_split_not_Nil [of "[c]" a] by (cases "py_split [c] a") auto
  show ?case
  proof (cases "d = c")
    case True
    have "py_split [c] (c # a @ c # b) = [] # py_split [c] (a @ c # b)"
      by (subst py_split.simps) simp
    moreover have "py_split [c] (c # a) = [] # py_split [c] a"
      by (subst py_split.simps) simp
    ultimately show ?thesis using True Cons by simp
  next
    case False
    have "py_split [c] (d # a @ c # b) = (d # p) # ps @ py_split [c] b"
      using False Cons ps by (subst py_split.simps) simp
    moreover have "py_split [c] (d # a) = (d # p) # ps"
      using False ps by (subst py_split.simps) simp
    ultimately show ?thesis by simp
  qed
qed

section \<open>Properties of the reconciler\<close>

lemma tags_to_add_filter:
  "tags_to_add desired cur = filter (\<lambda>tag. tag \<notin> current_tags cur) desired"
  by (induction desired) simp_all

lemma separator_chars: "SHOPIFY_TAG_SEPARATOR = [CHR '','', CHR '' '']"
  by (simp add: SHOPIFY_TAG_SEPARATOR_def)

lemma separator_chars_differ: "CHR '','' \<noteq> CHR '' ''"
  by simp

lemma current_tags_no_separator: "t \<in> current_tags cur \<Longrightarrow> \<not> has_separator t"
proof (cases cur)
  case None
  then show "t \<in> current_tags cur \<Longrightarrow> \<not> has_separator t"
    by (simp add: current_tags_def current_tag_list_def)
next
  case (Some s)
  assume "t \<in> current_tags cur"
  then have "s \<noteq> [] \<and> t \<in> set (py_split SHOPIFY_TAG_SEPARATOR s)"
    using Some by (simp add: current_tags_def current_tag_list_def split: if_splits)
  moreover have "SHOPIFY_TAG_SEPARATOR \<noteq> []"
    by (simp only: separator_chars) simp
  ultimately show "\<not> has_separator t"
    unfolding has_separator_def by (blast dest: py_split_no_sep)
qed

lemma merged_tag_list_props:
  "sorted (merged_tag_list cur to_add)" "distinct (merged_tag_list cur to_add)"
  "set (merged_tag_list cur to_add) = current_tags cur \<union> set to_add"
  by (simp_all add: merged_tag_list_def current_tags_def)

lemma parse_merge_tags:
  assumes "\<forall>t \<in> set to_add. \<not> has_separator t"
    and "current_tags cur \<union> set to_add \<noteq> {[]}"
  shows "current_tag_list (Some (merge_tags cur to_add)) = merged_tag_list cur to_add"
proof (cases "merged_tag_list cur to_add = []")
  case True
  then show ?thesis by (simp add: merge_tags_def current_tag_list_def)
next
  case False
  let ?L = "merged_tag_list cur to_add"
  have nosep: "\<forall>x \<in> set ?L. \<not> sublist SHOPIFY_TAG_SEPARATOR x"
    using assms(1) current_tags_no_separator [of _ cur]
    unfolding merged_tag_list_props(3) has_separator_def by blast
  have "?L \<noteq> [[]]"
  proof
    assume "?L = [[]]"
    then have "set ?L = {[]}" by simp
    then show False using assms(2) by (simp only: merged_tag_list_props(3))
  qed
  moreover have "SHOPIFY_TAG_SEPARATOR \<noteq> []"
    by (simp only: separator_chars) simp
  ultimately have "py_join SHOPIFY_TAG_SEPARATOR ?L \<noteq> []"
    using False by (simp add: py_join_eq_Nil)
  then have "current_tag_list (Some (merge_tags cur to_add)) =
             py_split SHOPIFY_TAG_SEPARATOR (py_join SHOPIFY_TAG_SEPARATOR ?L)"
    by (simp add: current_tag_list_def merge_tags_def)
  also have "\<dots> = ?L"
    using py_split_py_join [OF separator_chars_differ False] nosep
    unfolding separator_chars by blast
  finally show ?thesis .
qed


subsection \<open>Concrete tag strings\<close>

lemma no_comma_no_separator: "CHR '','' \<notin> set t \<Longrightarrow> \<not> has_separator t"
  unfolding has_separator_def separator_chars by (auto simp: sublist_def)

lemma merged_tag_list_sort:
  "merged_tag_list cur to_add = sort (remdups (current_tag_list cur @ to_add))"
  by (simp only: merged_tag_list_def current_tags_def set_append [symmetric]
      sorted_list_of_set_sort_remdups)

lemma split_a: "current_tag_list (Some ''a'') = [''a'']"
  by (simp add: current_tag_list_def SHOPIFY_TAG_SEPARATOR_def py_split.simps)

lemma split_aab: "current_tag_list (Some ''a, a, b'') = [''a'', ''a'', ''b'']"
  by (simp add: current_tag_list_def SHOPIFY_TAG_SEPARATOR_def py_split.simps)

lemma split_ab: "current_tag_list (Some ''a, b'') = [''a'', ''b'']"
  by (simp add: current_tag_list_def SHOPIFY_TAG_SEPARATOR_def py_split.simps)

lemma split_old_sale: "current_tag_list (Some ''old, sale'') = [''old'', ''sale'']"
  by (simp add: current_tag_list_def SHOPIFY_TAG_SEPARATOR_def py_split.simps)



lemma split_sale_old_old:
  "current_tag_list (Some ''sale, old, old'') = [''sale'', ''old'', ''old'']"
  by (simp add: current_tag_list_def SHOPIFY_TAG_SEPARATOR_def py_split.simps)


lemma merge_a_ab: "merge_tags (Some ''a'') [''a, b''] = ''a, a, b''"
  unfolding merge_tags_def merged_tag_list_def current_tags_def split_a
  by (simp add: sorted_list_of_set_sort_remdups SHOPIFY_TAG_SEPARATOR_def flip: set_append)

lemma merge_None_ab: "merge_tags None [''a, b''] = ''a, b''"
  unfolding merge_tags_def merged_tag_list_def current_tags_def
  by (simp add: current_tag_list_def)

lemma merge_ab_ab: "merge_tags (Some ''a, b'') [''a, b''] = ''a, a, b, b''"
  unfolding merge_tags_def merged_tag_list_def current_tags_def split_ab
  by (simp add: sorted_list_of_set_sort_remdups SHOPIFY_TAG_SEPARATOR_def flip: set_append)

lemma merged_old_sale_new:
  "merged_tag_list (Some ''old, sale'') [''new''] = [''new'', ''old'', ''sale'']"
  unfolding merged_tag_list_def current_tags_def split_old_sale
  by (simp add: sorted_list_of_set_sort_remdups flip: set_append)




lemma merge_sale_old_old:
  "merge_tags (Some ''sale, old, old'') [''new''] = ''new, old, sale''"
  by (simp add: merge_tags_def merged_tag_list_sort split_sale_old_old SHOPIFY_TAG_SEPARATOR_def)

subsection \<open>The merge step\<close>

text \<open>
  A tag to add that contains the separator is split again when the merged string is read:
  for the current tags \<open>a\<close> and the tag to add \<open>a, b\<close> the string written is \<open>a, a, b\<close>,
  in which \<open>a\<close> occurs twice and the tag \<open>a, b\<close> does not occur. So C2 does not hold for
  every list of tags to add.
\<close>

theorem merge_tags_separator_counterexample:
  "\<not> (distinct (current_tag_list (Some (merge_tags (Some ''a'') [''a, b'']))) \<and>
      set [''a, b''] \<subseteq> current_tags (Some (merge_tags (Some ''a'') [''a, b''])))"
  by (simp add: merge_a_ab split_aab)

text \<open>
  C2, amended. The merged tags are the sorted, duplicate-free union of the current tags and
  the tags to add, and the string written is that list joined with \<open>'', ''\<close>. When no tag to
  add contains the separator and the union is not the empty tag alone, reading the string
  written gives exactly that list back: every current tag and every added tag is in it, once.
\<close>

theorem merge_tags_sorted_union:
  "sorted (merged_tag_list cur to_add) \<and> distinct (merged_tag_list cur to_add) \<and>
   set (merged_tag_list cur to_add) = current_tags cur \<union> set to_add \<and>
   merge_tags cur to_add = py_join '', '' (merged_tag_list cur to_add) \<and>
   ((\<forall>t \<in> set to_add. \<not> has_separator t) \<and> current_tags cur \<union> set to_add \<noteq> {''''} \<longrightarrow>
      current_tag_list (Some (merge_tags cur to_add)) = merged_tag_list cur to_add)"
proof -
  have "merge_tags cur to_add = py_join '', '' (merged_tag_list cur to_add)"
    by (simp add: merge_tags_def SHOPIFY_TAG_SEPARATOR_def)
  then show ?thesis
    using parse_merge_tags [of to_add cur] merged_tag_list_props [of cur to_add] by blast
qed

theorem merge_tags_sorted_union_witness:
  "\<not> has_separator ''new'' \<and>
   current_tags (Some ''old, sale'') \<union> set [''new''] \<noteq> {''''} \<and>
   merge_tags (Some ''old, sale'') [''new''] = ''new, old, sale'' \<and>
   current_tag_list (Some (merge_tags (Some ''old, sale'') [''new''])) =
     [''new'', ''old'', ''sale'']"
proof -
  have h0: "\<not> has_separator ''new''"
    by (simp add: no_comma_no_separator)
  then have h1: "\<forall>t \<in> set [''new'']. \<not> has_separator t"
    by simp
  have h2: "current_tags (Some ''old, sale'') \<union> set [''new''] \<noteq> {''''}"
    by (auto simp: current_tags_def)
  note th = merge_tags_sorted_union [of "Some ''old, sale''" "[''new'']"]
  have a: "merge_tags (Some ''old, sale'') [''new''] = ''new, old, sale''"
    using th by (simp add: merged_old_sale_new)
  have b: "current_tag_list (Some (merge_tags (Some ''old, sale'') [''new''])) =
           merged_tag_list (Some ''old, sale'') [''new'']"
    using th h1 h2 by blast
  show ?thesis
    using a b h0 h2 by (simp only: merged_old_sale_new) simp
qed

subsection \<open>Idempotence\<close>

lemma tags_to_add_Nil_iff: "tags_to_add desired cur = [] \<longleftrightarrow> set desired \<subseteq> current_tags cur"
  by (auto simp: tags_to_add_filter filter_empty_conv)

lemma set_tags_to_add: "set (tags_to_add desired cur) = set desired - current_tags cur"
  by (auto simp: tags_to_add_filter)

lemma current_tags_Some_Nil: "current_tags (Some []) = {}"
  by (simp add: current_tags_def current_tag_list_def)

lemma union_singleton_aux:
  assumes "A \<noteq> {}" and "A = D - C" and "C \<union> A = {e}"
  shows "D = {e} \<and> C = {}"
proof -
  obtain x where x: "x \<in> A" using assms(1) by auto
  have all: "\<And>y. y \<in> C \<union> A \<Longrightarrow> y = e" using assms(3) by simp
  have "x = e" using x all by simp
  then have eA: "e \<in> A" using x by simp
  then have "e \<notin> C" using assms(2) by simp
  then have C: "C = {}" using all by auto
  have "D = A" using C assms(2) by simp
  moreover have "A = {e}" using C assms(3) by simp
  ultimately show ?thesis using C by simp
qed

lemma reconcile_unchanged: "tags_to_add desired cur = [] \<Longrightarrow> reconcile desired cur = cur"
  by (simp add: reconcile_def)

lemma reconcile_merged:
  "tags_to_add desired cur \<noteq> [] \<Longrightarrow>
   reconcile desired cur = Some (merge_tags cur (tags_to_add desired cur))"
  by (simp add: reconcile_def)

lemma current_tags_merge_tags:
  assumes "\<forall>t \<in> set to_add. \<not> has_separator t"
    and "current_tags cur \<union> set to_add \<noteq> {[]}"
  shows "current_tags (Some (merge_tags cur to_add)) = current_tags cur \<union> set to_add"
proof -
  have "current_tags (Some (merge_tags cur to_add)) =
        set (current_tag_list (Some (merge_tags cur to_add)))"
    by (rule current_tags_def)
  also have "\<dots> = set (merged_tag_list cur to_add)"
    by (simp only: parse_merge_tags [OF assms])
  also have "\<dots> = current_tags cur \<union> set to_add"
    by (rule merged_tag_list_props(3))
  finally show ?thesis .
qed

text \<open>
  With the desired tag \<open>a, b\<close> and a product without tags, the first run writes \<open>a, b\<close>;
  the second run reads the two tags \<open>a\<close> and \<open>b\<close>, finds \<open>a, b\<close> missing again and writes
  \<open>a, a, b, b\<close>. So C3 does not hold for every list of desired tags.
\<close>

theorem reconcile_separator_counterexample:
  "tags_to_add [''a, b''] (reconcile [''a, b''] None) \<noteq> [] \<and>
   reconcile [''a, b''] (reconcile [''a, b''] None) \<noteq> reconcile [''a, b''] None"
proof -
  have cn: "current_tags None = {}"
    by (simp add: current_tags_def current_tag_list_def)
  have r1: "reconcile [''a, b''] None = Some ''a, b''"
    by (simp add: reconcile_def cn merge_None_ab)
  have t2: "tags_to_add [''a, b''] (Some ''a, b'') = [''a, b'']"
    by (simp add: current_tags_def split_ab)
  have r2: "reconcile [''a, b''] (Some ''a, b'') = Some ''a, a, b, b''"
    unfolding reconcile_def t2 by (simp add: merge_ab_ab)
  show ?thesis
    unfolding r1 r2 t2 by simp
qed

text \<open>
  C3, amended. When no desired tag contains the separator \<open>'', ''\<close>, and the desired tags are
  not the empty tag alone on a product without tags, a second run finds nothing to add and
  leaves the tag string of the first run as it is.
\<close>

theorem reconcile_idempotent:
  assumes "\<forall>t \<in> set desired. \<not> has_separator t"
    and "set desired \<noteq> {''''} \<or> current_tags cur \<noteq> {}"
  shows "tags_to_add desired (reconcile desired cur) = [] \<and>
         reconcile desired (reconcile desired cur) = reconcile desired cur"
proof (cases "tags_to_add desired cur = []")
  case True
  then show ?thesis by (simp only: reconcile_unchanged)
next
  case False
  define to_add where "to_add = tags_to_add desired cur"
  have A: "set to_add = set desired - current_tags cur"
    unfolding to_add_def by (rule set_tags_to_add)
  have r: "reconcile desired cur = Some (merge_tags cur to_add)"
    unfolding to_add_def using False by (rule reconcile_merged)
  have nosep: "\<forall>t \<in> set to_add. \<not> has_separator t"
    using assms(1) by (simp add: A)
  have nonempty: "set to_add \<noteq> {}"
    using False by (simp add: to_add_def)
  have ne: "current_tags cur \<union> set to_add \<noteq> {[]}"
  proof
    assume "current_tags cur \<union> set to_add = {[]}"
    then have "set desired = {[]} \<and> current_tags cur = {}"
      using nonempty A by (rule union_singleton_aux [rotated 2])
    then show False using assms(2) by simp
  qed
  have "current_tags (Some (merge_tags cur to_add)) = current_tags cur \<union> set to_add"
    using nosep ne by (rule current_tags_merge_tags)
  then have "set desired \<subseteq> current_tags (Some (merge_tags cur to_add))"
    by (simp add: A)
  then have t: "tags_to_add desired (Some (merge_tags cur to_add)) = []"
    by (simp only: tags_to_add_Nil_iff)
  then have "reconcile desired (Some (merge_tags cur to_add)) = Some (merge_tags cur to_add)"
    by (rule reconcile_unchanged)
  then show ?thesis
    using t by (simp only: r)
qed

theorem reconcile_idempotent_witness:
  "\<not> has_separator ''sale'' \<and> \<not> has_separator ''new'' \<and>
   current_tags (Some ''old, sale'') \<noteq> {} \<and>
   reconcile [''sale'', ''new''] (Some ''old, sale'') = Some ''new, old, sale'' \<and>
   tags_to_add [''sale'', ''new''] (Some ''new, old, sale'') = [] \<and>
   reconcile [''sale'', ''new''] (Some ''new, old, sale'') = Some ''new, old, sale''"
proof -
  have h0: "\<not> has_separator ''sale''" "\<not> has_separator ''new''"
    by (simp_all add: no_comma_no_separator)
  then have h1: "\<forall>t \<in> set [''sale'', ''new'']. \<not> has_separator t"
    by simp
  have c: "current_tags (Some ''old, sale'') \<noteq> {}"
    by (simp add: current_tags_def split_old_sale)
  then have h2: "set [''sale'', ''new''] \<noteq> {''''} \<or> current_tags (Some ''old, sale'') \<noteq> {}"
    by (rule disjI2)
  have t: "tags_to_add [''sale'', ''new''] (Some ''old, sale'') = [''new'']"
    by (simp add: current_tags_def split_old_sale)
  have m: "merge_tags (Some ''old, sale'') [''new''] = ''new, old, sale''"
    by (simp add: merge_tags_def merged_old_sale_new SHOPIFY_TAG_SEPARATOR_def)
  have r: "reconcile [''sale'', ''new''] (Some ''old, sale'') = Some ''new, old, sale''"
    using reconcile_merged [of "[''sale'', ''new'']" "Some ''old, sale''"]
    by (simp only: t m) simp
  show ?thesis
    using reconcile_idempotent [OF h1 h2] h0 c r by (simp only: r) simp
qed

subsection \<open>Independence of the order\<close>




end
